theory Spec2Isabelle
  imports Complex_Main "HOL-Library.AList"
begin

section \<open>Function statistics (class FunctionStats of tracer.py)\<close>

text \<open>
  Python floats are modelled over exact arithmetic as \<open>real\<close>. The only non-finite value
  the code ever creates is the initial \<open>min_time = float('inf')\<close>, so the minimum is a
  value of \<open>xfloat\<close>: a finite real or positive infinity.
\<close>

datatype xfloat = Finite real | Infinity

text \<open>
  Exceptions as values: the two the tracer itself can raise, the unbound closure
  variable, and \<open>Raised k\<close> for an exception raised by a traced callable.
\<close>

datatype error = ZeroDivisionError | RuntimeError | NameError | Raised nat

record FunctionStats =
  call_count :: int
  total_time :: real
  min_time :: xfloat
  max_time :: real

text \<open>The dataclass defaults: \<open>FunctionStats()\<close>.\<close>

definition new_stats :: FunctionStats where
  "new_stats = \<lparr>call_count = 0, total_time = 0, min_time = Infinity, max_time = 0\<rparr>"

text \<open>Python's \<open>a / b\<close> on a float and an int: raises when the divisor is zero.\<close>

definition float_div :: "real \<Rightarrow> int \<Rightarrow> error + real" where
  "float_div a b = (if b = 0 then Inl ZeroDivisionError else Inr (a / real_of_int b))"

text \<open>
  \<open>return self.total_time / self.call_count if self.call_count > 0 else 0\<close>
\<close>

definition avg_time :: "FunctionStats \<Rightarrow> error + real" where
  "avg_time st =
     (if call_count st > 0 then float_div (total_time st) (call_count st) else Inr 0)"

text \<open>\<open>min(stats.min_time, duration)\<close> and \<open>max(stats.max_time, duration)\<close>.\<close>

fun min_x :: "xfloat \<Rightarrow> real \<Rightarrow> xfloat" where
  "min_x Infinity d = Finite d"
| "min_x (Finite m) d = Finite (if d < m then d else m)"

definition max_f :: "real \<Rightarrow> real \<Rightarrow> real" where
  "max_f m d = (if d > m then d else m)"

text \<open>Comparison of a possibly infinite float with a finite one.\<close>

fun x_le :: "xfloat \<Rightarrow> real \<Rightarrow> bool" where
  "x_le Infinity a = False"
| "x_le (Finite m) a = (m \<le> a)"

text \<open>
  The four update statements shared by \<open>wrapped_function\<close> (lines 190-193) and the
  return branch of \<open>_trace_function\<close> (lines 265-268).
\<close>

definition update_stats :: "FunctionStats \<Rightarrow> real \<Rightarrow> FunctionStats" where
  "update_stats st duration =
     st\<lparr>call_count := call_count st + 1,
        total_time := total_time st + duration,
        min_time := min_x (min_time st) duration,
        max_time := max_f (max_time st) duration\<rparr>"

section \<open>The tracer and its environment (class FunctionTracer)\<close>

text \<open>
  A callable handed to the tracer: its object identity, the identity of its \<open>__code__\<close>
  (absent for native functions), and its \<open>__module__\<close> and \<open>__name__\<close> attributes
  (absent when \<open>hasattr\<close> is false). Python compares and hashes functions by identity;
  the model compares the whole value.
\<close>

datatype func = Func (fid: nat) (fcode: "nat option") (fmodule: "string option") (fname: "string option")

text \<open>
  What a module attribute can hold: an original callable, a \<open>wrapped_function\<close> closure,
  or something installed by a third party. A closure does not hold the value of \<open>func\<close>:
  it refers to the variable \<open>func\<close> of the \<open>_setup_builtin_tracing\<close> call that
  created it. That variable is a cell, \<open>Wrapper c\<close> is a closure over cell \<open>c\<close>.
\<close>

datatype callable = Original func | Wrapper nat | Foreign nat

text \<open>A trace function as seen by \<open>sys.settrace\<close>: the tracer's own or another one.\<close>

datatype hook = TracerHook | OtherHook nat

datatype event = EvCall | EvReturn | EvLine | EvException

datatype warning = CouldNotWrap string | CouldNotRestore string

text \<open>
  The fields of \<open>FunctionTracer\<close>, followed by the part of the interpreter the tracer
  reads and writes. Python sets are lists without duplicates, iterated in list order (the
  order Python uses is unspecified). \<open>stats\<close> maps a function to a reference: the
  \<open>FunctionStats\<close> objects live in \<open>heap\<close> and are updated in place.
  \<open>original_builtins\<close> is an insertion-ordered dictionary.
\<close>

record state =
  enabled :: bool
  traced_functions :: "func list"
  decorated_functions :: "func list"
  stats :: "func \<rightharpoonup> nat"
  call_stack :: "nat \<rightharpoonup> func \<times> real"
  original_trace_function :: "hook option"
  builtin_functions :: "func list"
  original_builtins :: "(func \<times> func) list"
  wrapped_builtins :: "func \<rightharpoonup> callable"
  heap :: "nat \<rightharpoonup> FunctionStats"
  next_ref :: nat
  cells :: "nat \<rightharpoonup> func"
  next_cell :: nat
  sys_trace :: "hook option"
  importable :: "string \<Rightarrow> bool"
  bindings :: "string \<times> string \<rightharpoonup> callable"
  printed :: "warning list"

text \<open>\<open>FunctionTracer()\<close> in an interpreter with the given modules and trace function.\<close>

definition init :: "(string \<Rightarrow> bool) \<Rightarrow> (string \<times> string \<rightharpoonup> callable) \<Rightarrow> hook option \<Rightarrow> state" where
  "init imp binds tr =
     \<lparr>enabled = False, traced_functions = [], decorated_functions = [],
      stats = Map.empty, call_stack = Map.empty, original_trace_function = None,
      builtin_functions = [], original_builtins = [], wrapped_builtins = Map.empty,
      heap = Map.empty, next_ref = 0, cells = Map.empty, next_cell = 0,
      sys_trace = tr, importable = imp, bindings = binds, printed = []\<rparr>"

text \<open>The decorator \<open>trace\<close>: \<open>tracer._decorated_functions.add(function)\<close>.\<close>

definition trace :: "func \<Rightarrow> state \<Rightarrow> state" where
  "trace function s = s\<lparr>decorated_functions := List.insert function (decorated_functions s)\<rparr>"

text \<open>\<open>not hasattr(func, '__code__') and callable(func)\<close>; every \<open>func\<close> is callable.\<close>

definition is_builtin_function :: "func \<Rightarrow> bool" where
  "is_builtin_function f = (fcode f = None)"

text \<open>The loop of \<open>enable\<close> (lines 96-100) and of \<open>update_functions\<close> (lines 143-147).\<close>

fun classify_functions :: "func list \<Rightarrow> state \<Rightarrow> state" where
  "classify_functions [] s = s"
| "classify_functions (f # fs) s =
     classify_functions fs
       (if is_builtin_function f
        then s\<lparr>builtin_functions := List.insert f (builtin_functions s)\<rparr>
        else s\<lparr>traced_functions := List.insert f (traced_functions s)\<rparr>)"

text \<open>
  \<open>setattr(importlib.import_module(module_name), func_name, value)\<close> inside its
  \<open>try\<close>: the import fails for a module that cannot be imported, and the handler
  prints a warning.
\<close>

definition set_binding :: "func \<Rightarrow> callable \<Rightarrow> warning \<Rightarrow> state \<Rightarrow> state" where
  "set_binding f v w s =
     (case fmodule f of
        None \<Rightarrow> s
      | Some m \<Rightarrow>
          (case fname f of
             None \<Rightarrow> s
           | Some n \<Rightarrow>
               if importable s m then s\<lparr>bindings := (bindings s)((m, n) \<mapsto> v)\<rparr>
               else s\<lparr>printed := printed s @ [w]\<rparr>))"

text \<open>
  The records for which the \<open>try\<close> block is entered and raises: the function has a
  module and a name, and the module cannot be imported.
\<close>

definition import_fails :: "(string \<Rightarrow> bool) \<Rightarrow> func \<Rightarrow> bool" where
  "import_fails imp f =
     (case fmodule f of
        None \<Rightarrow> False
      | Some m \<Rightarrow> (case fname f of None \<Rightarrow> False | Some n \<Rightarrow> \<not> imp m))"

definition warn_name :: "func \<Rightarrow> string" where
  "warn_name f = (case fname f of None \<Rightarrow> [] | Some n \<Rightarrow> n)"

text \<open>
  The loop of \<open>_setup_builtin_tracing\<close>. Each iteration first assigns the loop variable
  (cell \<open>c\<close>), then skips an already wrapped function, else saves the original, creates
  the closure and installs it.
\<close>

fun setup_loop :: "nat \<Rightarrow> func list \<Rightarrow> state \<Rightarrow> state" where
  "setup_loop c [] s = s"
| "setup_loop c (f # fs) s =
     (let s0 = s\<lparr>cells := (cells s)(c \<mapsto> f)\<rparr> in
      if wrapped_builtins s0 f \<noteq> None then setup_loop c fs s0
      else
        let s1 = s0\<lparr>original_builtins := AList.update f f (original_builtins s0),
                    wrapped_builtins := (wrapped_builtins s0)(f \<mapsto> Wrapper c)\<rparr>
        in setup_loop c fs (set_binding f (Wrapper c) (CouldNotWrap (warn_name f)) s1))"

definition setup_builtin_tracing :: "state \<Rightarrow> state" where
  "setup_builtin_tracing s =
     (let c = next_cell s in setup_loop c (builtin_functions s) (s\<lparr>next_cell := c + 1\<rparr>))"

fun restore_loop :: "(func \<times> func) list \<Rightarrow> state \<Rightarrow> state" where
  "restore_loop [] s = s"
| "restore_loop ((f, original) # rest) s =
     restore_loop rest (set_binding f (Original original) (CouldNotRestore (warn_name f)) s)"

definition restore_builtin_functions :: "state \<Rightarrow> state" where
  "restore_builtin_functions s =
     (restore_loop (original_builtins s) s)
       \<lparr>builtin_functions := [], original_builtins := [], wrapped_builtins := Map.empty\<rparr>"

text \<open>
  \<open>update_functions\<close>. An operation that can raise returns the exception or the result
  together with the state it leaves behind.
\<close>

definition update_functions :: "func list \<Rightarrow> state \<Rightarrow> (error + unit) \<times> state" where
  "update_functions functions s =
     (if \<not> enabled s then (Inl RuntimeError, s)
      else
        let s1 = restore_builtin_functions s;
            s2 = s1\<lparr>traced_functions := decorated_functions s1, builtin_functions := []\<rparr>;
            s3 = classify_functions functions s2
        in (Inr (), setup_builtin_tracing s3))"

text \<open>\<open>enable\<close>; the argument is \<open>None\<close> or a list, and \<open>if functions:\<close> skips both
  \<open>None\<close> and the empty list.\<close>

definition enable :: "func list option \<Rightarrow> state \<Rightarrow> (error + unit) \<times> state" where
  "enable functions s =
     (if enabled s then
        (case functions of None \<Rightarrow> (Inr (), s) | Some fs \<Rightarrow> update_functions fs s)
      else
        let s1 = s\<lparr>traced_functions := decorated_functions s\<rparr>;
            s2 = (case functions of None \<Rightarrow> s1 | Some fs \<Rightarrow> classify_functions fs s1);
            s3 = s2\<lparr>original_trace_function := sys_trace s2, sys_trace := Some TracerHook\<rparr>;
            s4 = setup_builtin_tracing s3
        in (Inr (), s4\<lparr>enabled := True\<rparr>))"

text \<open>
  \<open>dict(self._stats)\<close> copies the dictionary, not the objects in it: the copy maps each
  function to the same \<open>FunctionStats\<close> object as the store does.
\<close>

definition get_results :: "state \<Rightarrow> (func \<rightharpoonup> nat)" where
  "get_results s = stats s"

definition disable :: "state \<Rightarrow> (func \<rightharpoonup> nat) \<times> state" where
  "disable s =
     (if \<not> enabled s then (stats s, s)
      else
        let s1 = s\<lparr>sys_trace := original_trace_function s\<rparr>;
            s2 = restore_builtin_functions s1;
            s3 = s2\<lparr>enabled := False, call_stack := Map.empty\<rparr>
        in (stats s3, s3))"

text \<open>What a caller holding the dictionary \<open>snap\<close> reads from it in state \<open>s\<close>.\<close>

definition read_snapshot :: "(func \<rightharpoonup> nat) \<Rightarrow> state \<Rightarrow> (func \<rightharpoonup> FunctionStats)" where
  "read_snapshot snap s f = (case snap f of None \<Rightarrow> None | Some r \<Rightarrow> heap s r)"

text \<open>
  \<open>stats = self._stats[func]\<close> on a \<open>defaultdict(FunctionStats)\<close>: a missing key gets a
  new object. Then the four updates on that object.
\<close>

definition stats_lookup :: "func \<Rightarrow> state \<Rightarrow> nat \<times> state" where
  "stats_lookup f s =
     (case stats s f of
        Some r \<Rightarrow> (r, s)
      | None \<Rightarrow>
          (next_ref s,
           s\<lparr>stats := (stats s)(f \<mapsto> next_ref s),
              heap := (heap s)(next_ref s \<mapsto> new_stats),
              next_ref := next_ref s + 1\<rparr>))"

definition record_stats :: "func \<Rightarrow> real \<Rightarrow> state \<Rightarrow> state" where
  "record_stats f duration s =
     (case stats_lookup f s of
        (r, s1) \<Rightarrow>
          (case heap s1 r of
             None \<Rightarrow> s1
           | Some st \<Rightarrow> s1\<lparr>heap := (heap s1)(r \<mapsto> update_stats st duration)\<rparr>))"

text \<open>
  \<open>_trace_function(frame, event, arg)\<close>: \<open>frame_id\<close> is \<open>id(frame)\<close>, \<open>code\<close> is
  \<open>frame.f_code\<close>, \<open>now\<close> is what \<open>time.perf_counter()\<close> returns in this call. The
  result is the local trace function handed back to the interpreter.
\<close>

definition trace_function :: "nat \<Rightarrow> nat \<Rightarrow> event \<Rightarrow> real \<Rightarrow> state \<Rightarrow> hook option \<times> state" where
  "trace_function frame_id code ev now s =
     (case ev of
        EvCall \<Rightarrow>
          (case find (\<lambda>traced_func. fcode traced_func = Some code) (traced_functions s) of
             Some func \<Rightarrow>
               (Some TracerHook, s\<lparr>call_stack := (call_stack s)(frame_id \<mapsto> (func, now))\<rparr>)
           | None \<Rightarrow> (None, s))
      | EvReturn \<Rightarrow>
          (case call_stack s frame_id of
             Some (func, start_time) \<Rightarrow>
               (None, record_stats func (now - start_time)
                        (s\<lparr>call_stack := (call_stack s)(frame_id := None)\<rparr>))
           | None \<Rightarrow> (None, s))
      | EvLine \<Rightarrow> (None, s)
      | EvException \<Rightarrow> (None, s))"

text \<open>
  \<open>wrapped_function\<close>, the closure over cell \<open>c\<close>. \<open>call g\<close> is what calling the
  original callable \<open>g\<close> with the given arguments does: return a value or raise. The
  two clock readings are \<open>t0\<close> and \<open>t1\<close>. There is no \<open>try\<close> around the call, so an
  exception leaves the function at once.
\<close>

definition wrapped_function :: "nat \<Rightarrow> (func \<Rightarrow> error + nat) \<Rightarrow> real \<Rightarrow> real \<Rightarrow> state \<Rightarrow> (error + nat) \<times> state" where
  "wrapped_function c call t0 t1 s =
     (case cells s c of
        None \<Rightarrow> (Inl NameError, s)
      | Some func \<Rightarrow>
          if \<not> enabled s then (call func, s)
          else
            (case call func of
               Inl e \<Rightarrow> (Inl e, s)
             | Inr result \<Rightarrow> (Inr result, record_stats func (t1 - t0) s)))"

text \<open>A third party assigning to a module attribute.\<close>

definition rebind :: "string \<times> string \<Rightarrow> callable \<Rightarrow> state \<Rightarrow> state" where
  "rebind loc v s = s\<lparr>bindings := (bindings s)(loc \<mapsto> v)\<rparr>"

section \<open>Runs of the tracer\<close>


text \<open>
  A chain of recursive activations of the function with code \<open>c\<close>: the frames are
  entered in order and left in reverse order; \<open>tc i\<close> and \<open>tr i\<close> are the clock
  readings at the entry and the exit of frame \<open>i\<close>.
\<close>

definition recursion_events :: "nat \<Rightarrow> nat list \<Rightarrow> (nat \<Rightarrow> real) \<Rightarrow> (nat \<Rightarrow> real) \<Rightarrow> (nat \<times> nat \<times> event \<times> real) list" where
  "recursion_events c frames tc tr =
     map (\<lambda>i. (i, c, EvCall, tc i)) frames @ map (\<lambda>i. (i, c, EvReturn, tr i)) (rev frames)"

definition count_of :: "func \<Rightarrow> state \<Rightarrow> int" where
  "count_of f s = (case read_snapshot (stats s) s f of None \<Rightarrow> 0 | Some st \<Rightarrow> call_count st)"



text \<open>
  Everything that can happen to a tracer: the public methods, the decorator, the
  interpreter calling the trace function, a caller invoking a wrapper closure, and a third
  party rebinding a module attribute.
\<close>

datatype op =
    OpTrace func
  | OpEnable "func list option"
  | OpDisable
  | OpUpdate "func list"
  | OpGetResults
  | OpHook nat nat event real
  | OpWrapper nat "func \<Rightarrow> error + nat" real real
  | OpRebind "string \<times> string" callable

fun exec :: "op \<Rightarrow> state \<Rightarrow> state" where
  "exec (OpTrace f) s = trace f s"
| "exec (OpEnable fs) s = snd (enable fs s)"
| "exec OpDisable s = snd (disable s)"
| "exec (OpUpdate fs) s = snd (update_functions fs s)"
| "exec OpGetResults s = s"
| "exec (OpHook frame_id code ev now) s = snd (trace_function frame_id code ev now s)"
| "exec (OpWrapper c call t0 t1) s = snd (wrapped_function c call t0 t1 s)"
| "exec (OpRebind loc v) s = rebind loc v s"

definition run :: "op list \<Rightarrow> state \<Rightarrow> state" where
  "run ops s = foldl (\<lambda>s' x. exec x s') s ops"

subsection \<open>A concrete interpreter\<close>

definition slow_function :: func where
  "slow_function = Func 1 (Some 101) (Some ''__main__'') (Some ''slow_function'')"

definition time_sleep :: func where
  "time_sleep = Func 2 None (Some ''time'') (Some ''sleep'')"

definition time_time :: func where
  "time_time = Func 3 None (Some ''time'') (Some ''time'')"

definition py_world :: state where
  "py_world =
     init (\<lambda>m. m = ''time'')
       [(''time'', ''sleep'') \<mapsto> Original time_sleep, (''time'', ''time'') \<mapsto> Original time_time]
       None"

text \<open>Every original returns its own identity number; \<open>raising\<close> originals raise.\<close>

definition returning :: "func \<Rightarrow> error + nat" where
  "returning g = Inr (fid g)"

definition raising :: "func \<Rightarrow> error + nat" where
  "raising g = Inl (Raised (fid g))"

text \<open>One traced call of \<open>slow_function\<close> lasting two time units, then \<open>disable()\<close>.\<close>

definition one_session :: "op list" where
  "one_session =
     [OpEnable (Some [slow_function]), OpHook 7 101 EvCall 10, OpHook 7 101 EvReturn 12, OpDisable]"

text \<open>The traced part of that session, and a second traced call lasting five units.\<close>

definition first_call :: "op list" where
  "first_call =
     [OpEnable (Some [slow_function]), OpHook 7 101 EvCall 10, OpHook 7 101 EvReturn 12]"

definition second_call :: "op list" where
  "second_call = [OpHook 8 101 EvCall 20, OpHook 8 101 EvReturn 25]"

text \<open>The tracer after \<open>enable([time.sleep])\<close>, and the attribute \<open>time.sleep\<close>.\<close>

definition sleep_traced :: state where
  "sleep_traced = snd (enable (Some [time_sleep]) py_world)"

definition sleep_loc :: "string \<times> string" where
  "sleep_loc = (''time'', ''sleep'')"

text \<open>
  Two closures made from one \<open>def\<close>: distinct function objects with the same
  \<open>__code__\<close>.
\<close>

definition closure_a :: func where
  "closure_a = Func 4 (Some 200) (Some ''__main__'') (Some ''inner'')"

definition closure_b :: func where
  "closure_b = Func 5 (Some 200) (Some ''__main__'') (Some ''inner'')"

section \<open>Invariants\<close>

text \<open>
  The bounds kept by every recording: the minimum times the count is at most the total,
  which is at most the maximum times the count.
\<close>

definition stats_bounded :: "FunctionStats \<Rightarrow> bool" where
  "stats_bounded st =
     (0 \<le> call_count st \<and> 0 \<le> max_time st \<and>
      (case min_time st of
         Infinity \<Rightarrow> call_count st = 0 \<and> total_time st = 0
       | Finite m \<Rightarrow> 0 < call_count st \<and>
           m * real_of_int (call_count st) \<le> total_time st \<and>
           total_time st \<le> max_time st * real_of_int (call_count st) \<and> m \<le> max_time st))"

text \<open>Every statistics object in the heap has been counted at least once.\<close>

definition heap_counted :: "state \<Rightarrow> bool" where
  "heap_counted s = (\<forall>r st. heap s r = Some st \<longrightarrow> 1 \<le> call_count st)"


section \<open>Properties of the statistics\<close>

lemma update_stats_count: "call_count (update_stats st d) = call_count st + 1"
  by (simp add: update_stats_def)

lemma foldl_update_count:
  "call_count (foldl update_stats st ds) = call_count st + int (length ds)"
  by (induction ds arbitrary: st) (simp_all add: update_stats_count)

lemma stats_bounded_new: "stats_bounded new_stats"
  by (simp add: stats_bounded_def new_stats_def)

lemma stats_bounded_update:
  assumes "stats_bounded st" and "0 \<le> d"
  shows "stats_bounded (update_stats st d)"
proof (cases "min_time st")
  case Infinity
  with assms show ?thesis
    by (simp add: stats_bounded_def update_stats_def max_f_def)
next
  case (Finite m)
  with assms have c: "0 < call_count st"
    and lo: "m * real_of_int (call_count st) \<le> total_time st"
    and hi: "total_time st \<le> max_time st * real_of_int (call_count st)"
    and mm: "m \<le> max_time st" and mx: "0 \<le> max_time st"
    by (simp_all add: stats_bounded_def)
  let ?n = "real_of_int (call_count st)"
  have n: "0 < ?n" using c by simp
  have lo': "(if d < m then d else m) * (?n + 1) \<le> total_time st + d"
  proof (cases "d < m")
    case True
    then have "d * ?n \<le> m * ?n" using n by (simp add: mult_right_mono)
    with lo True show ?thesis by (simp add: algebra_simps)
  next
    case False
    with lo show ?thesis by (simp add: algebra_simps)
  qed
  have hi': "total_time st + d \<le> max_f (max_time st) d * (?n + 1)"
  proof (cases "d > max_time st")
    case True
    then have "max_time st * ?n \<le> d * ?n" using n by (simp add: mult_right_mono)
    with hi True show ?thesis by (simp add: max_f_def algebra_simps)
  next
    case False
    with hi show ?thesis by (simp add: max_f_def algebra_simps)
  qed
  have mm': "(if d < m then d else m) \<le> max_f (max_time st) d"
    using mm by (simp add: max_f_def)
  have mx': "0 \<le> max_f (max_time st) d"
    using mx by (simp add: max_f_def)
  from Finite c lo' hi' mm' mx' show ?thesis
    by (simp add: stats_bounded_def update_stats_def)
qed

lemma stats_bounded_foldl:
  "stats_bounded st \<Longrightarrow> list_all (\<lambda>d. 0 \<le> d) ds \<Longrightarrow> stats_bounded (foldl update_stats st ds)"
  by (induction ds arbitrary: st) (simp_all add: stats_bounded_update)

lemma stats_bounded_avg:
  assumes "stats_bounded st" and "0 < call_count st"
  shows "\<exists>a. avg_time st = Inr a \<and> x_le (min_time st) a \<and> a \<le> max_time st"
proof (cases "min_time st")
  case Infinity
  with assms show ?thesis by (simp add: stats_bounded_def)
next
  case (Finite m)
  let ?n = "real_of_int (call_count st)"
  have n: "0 < ?n" using assms(2) by simp
  from Finite assms(1) have lo: "m * ?n \<le> total_time st"
    and hi: "total_time st \<le> max_time st * ?n"
    by (simp_all add: stats_bounded_def)
  have "m \<le> total_time st / ?n" using lo n by (simp add: pos_le_divide_eq)
  moreover have "total_time st / ?n \<le> max_time st" using hi n by (simp add: pos_divide_le_eq)
  ultimately show ?thesis using Finite assms(2)
    by (simp add: avg_time_def float_div_def)
qed

text \<open>
  C10: \<open>avg_time\<close> is total. For every statistics value whatsoever it returns a number and
  never the division error: \<open>0\<close> when \<open>call_count\<close> is not positive (no division is
  performed on that branch), and \<open>total_time / call_count\<close> when it is positive.
\<close>

theorem avg_time_total:
  "avg_time st = Inr (if call_count st > 0 then total_time st / real_of_int (call_count st) else 0)
   \<and> avg_time st \<noteq> Inl ZeroDivisionError
   \<and> avg_time (st\<lparr>call_count := 0\<rparr>) = Inr 0"
  by (simp add: avg_time_def float_div_def)

text \<open>
  C8: statistics built from a fresh \<open>FunctionStats()\<close> by any sequence of recordings with
  non-negative durations satisfy \<open>min_time \<le> avg_time \<le> max_time\<close> as soon as
  \<open>call_count > 0\<close>; the average is computed without error.
\<close>

theorem min_avg_max:
  assumes "list_all (\<lambda>d. 0 \<le> d) ds"
    and "st = foldl update_stats new_stats ds"
    and "0 < call_count st"
  shows "\<exists>a. avg_time st = Inr a \<and> x_le (min_time st) a \<and> a \<le> max_time st"
  using assms stats_bounded_avg [of st] stats_bounded_foldl [OF stats_bounded_new, of ds]
  by simp

theorem min_avg_max_witness:
  "list_all (\<lambda>d. 0 \<le> d) [3, 1, 2 :: real]
   \<and> 0 < call_count (foldl update_stats new_stats [3, 1, 2])
   \<and> avg_time (foldl update_stats new_stats [3, 1, 2]) = Inr 2
   \<and> min_time (foldl update_stats new_stats [3, 1, 2]) = Finite 1
   \<and> max_time (foldl update_stats new_stats [3, 1, 2]) = 3
   \<and> (\<exists>a. avg_time (foldl update_stats new_stats [3, 1, 2]) = Inr a
        \<and> x_le (min_time (foldl update_stats new_stats [3, 1, 2])) a
        \<and> a \<le> max_time (foldl update_stats new_stats [3, 1, 2]))"
  using min_avg_max [of "[3, 1, 2]" "foldl update_stats new_stats [3, 1, 2]"]
  by (simp add: update_stats_def new_stats_def avg_time_def float_div_def max_f_def)

section \<open>What the loops leave alone\<close>

lemmas unfold_all =
  enable_def disable_def update_functions_def setup_builtin_tracing_def
  restore_builtin_functions_def init_def py_world_def slow_function_def time_sleep_def
  time_time_def is_builtin_function_def set_binding_def warn_name_def Let_def
  trace_function_def record_stats_def stats_lookup_def update_stats_def new_stats_def
  max_f_def recursion_events_def read_snapshot_def get_results_def wrapped_function_def
  returning_def raising_def rebind_def run_def one_session_def trace_def
  first_call_def second_call_def sleep_traced_def sleep_loc_def
  closure_a_def closure_b_def

lemma set_binding_frame:
  "stats (set_binding f v w s) = stats s"
  "heap (set_binding f v w s) = heap s"
  "importable (set_binding f v w s) = importable s"
  by (simp_all add: set_binding_def split: option.splits)

lemma classify_functions_frame:
  "stats (classify_functions fs s) = stats s \<and> heap (classify_functions fs s) = heap s"
  by (induction fs arbitrary: s) simp_all

lemma setup_loop_frame:
  "stats (setup_loop c fs s) = stats s \<and> heap (setup_loop c fs s) = heap s"
  by (induction fs arbitrary: s) (simp_all add: Let_def set_binding_frame)

lemma restore_loop_frame:
  "stats (restore_loop recs s) = stats s \<and> heap (restore_loop recs s) = heap s
   \<and> importable (restore_loop recs s) = importable s"
  by (induction recs arbitrary: s) (auto simp: set_binding_frame)

lemma setup_builtin_tracing_frame:
  "stats (setup_builtin_tracing s) = stats s \<and> heap (setup_builtin_tracing s) = heap s"
  by (simp add: setup_builtin_tracing_def Let_def setup_loop_frame)

lemma restore_builtin_functions_frame:
  "stats (restore_builtin_functions s) = stats s \<and> heap (restore_builtin_functions s) = heap s"
  by (simp add: restore_builtin_functions_def restore_loop_frame)

lemma update_functions_frame:
  "stats (snd (update_functions fs s)) = stats s \<and> heap (snd (update_functions fs s)) = heap s"
  by (simp add: update_functions_def Let_def setup_builtin_tracing_frame
      classify_functions_frame restore_builtin_functions_frame)

lemma enable_frame:
  "stats (snd (enable fs s)) = stats s \<and> heap (snd (enable fs s)) = heap s"
  by (cases fs) (simp_all add: enable_def Let_def update_functions_frame
      setup_builtin_tracing_frame classify_functions_frame)

lemma disable_frame:
  "stats (snd (disable s)) = stats s \<and> heap (snd (disable s)) = heap s"
  by (simp add: disable_def Let_def restore_builtin_functions_frame)

section \<open>Lifecycle\<close>




text \<open>
  C6: \<open>update_functions(targets)\<close> on a disabled tracer raises \<open>RuntimeError\<close> and
  changes nothing: the state after the call is the state before it, so \<open>get_results()\<close>
  still shows the statistics gathered earlier.
\<close>

theorem update_while_disabled:
  "\<not> enabled s \<Longrightarrow>
     fst (update_functions targets s) = Inl RuntimeError
     \<and> snd (update_functions targets s) = s
     \<and> read_snapshot (get_results (snd (update_functions targets s)))
          (snd (update_functions targets s))
        = read_snapshot (get_results s) s"
  by (simp add: update_functions_def)

theorem update_while_disabled_witness:
  "\<not> enabled (run one_session py_world)
   \<and> fst (update_functions [time_sleep] (run one_session py_world)) = Inl RuntimeError
   \<and> snd (update_functions [time_sleep] (run one_session py_world)) = run one_session py_world
   \<and> read_snapshot (get_results (snd (update_functions [time_sleep] (run one_session py_world))))
        (snd (update_functions [time_sleep] (run one_session py_world))) slow_function
      = Some \<lparr>call_count = 1, total_time = 2, min_time = Finite 2, max_time = 2\<rparr>"
proof -
  let ?s = "run one_session py_world"
  have ne: "\<not> enabled ?s" by (simp add: unfold_all)
  have v: "read_snapshot (get_results ?s) ?s slow_function
     = Some \<lparr>call_count = 1, total_time = 2, min_time = Finite 2, max_time = 2\<rparr>"
    by (simp add: unfold_all)
  from update_while_disabled [OF ne, of "[time_sleep]"] ne v show ?thesis by simp
qed


section \<open>Every object in the heap has been counted\<close>

lemma heap_counted_heap: "heap s' = heap s \<Longrightarrow> heap_counted s \<Longrightarrow> heap_counted s'"
  by (simp add: heap_counted_def)

lemma heap_counted_record:
  assumes "heap_counted s"
  shows "heap_counted (record_stats f d s)"
proof (cases "stats s f")
  case None
  then show ?thesis using assms
    by (simp add: record_stats_def stats_lookup_def heap_counted_def update_stats_def new_stats_def)
next
  case (Some r)
  show ?thesis
  proof (cases "heap s r")
    case None
    with Some assms show ?thesis by (simp add: record_stats_def stats_lookup_def)
  next
    case (Some st)
    with assms have "1 \<le> call_count st" by (simp add: heap_counted_def)
    then have "0 \<le> call_count st" by simp
    with Some \<open>stats s f = Some r\<close> assms show ?thesis
      by (simp add: record_stats_def stats_lookup_def heap_counted_def update_stats_def)
  qed
qed

lemma heap_counted_trace_function:
  assumes "heap_counted s"
  shows "heap_counted (snd (trace_function i c ev t s))"
proof (cases ev)
  case EvCall
  have "heap (snd (trace_function i c EvCall t s)) = heap s"
    by (simp add: trace_function_def split: option.splits)
  with assms EvCall show ?thesis by (simp add: heap_counted_heap)
next
  case EvReturn
  show ?thesis
  proof (cases "call_stack s i")
    case None
    with EvReturn assms show ?thesis by (simp add: trace_function_def)
  next
    case (Some p)
    obtain g t0 where p: "p = (g, t0)" by (cases p)
    have "heap_counted (s\<lparr>call_stack := (call_stack s)(i := None)\<rparr>)"
      using assms by (simp add: heap_counted_def)
    then have "heap_counted (record_stats g (t - t0) (s\<lparr>call_stack := (call_stack s)(i := None)\<rparr>))"
      by (rule heap_counted_record)
    with EvReturn Some p show ?thesis by (simp add: trace_function_def)
  qed
next
  case EvLine
  with assms show ?thesis by (simp add: trace_function_def)
next
  case EvException
  with assms show ?thesis by (simp add: trace_function_def)
qed

lemma heap_counted_wrapped_function:
  assumes "heap_counted s"
  shows "heap_counted (snd (wrapped_function c call t0 t1 s))"
proof (cases "cells s c")
  case None
  with assms show ?thesis by (simp add: wrapped_function_def)
next
  case (Some g)
  show ?thesis
  proof (cases "call g")
    case (Inl e)
    with Some assms show ?thesis by (simp add: wrapped_function_def)
  next
    case (Inr v)
    with Some assms show ?thesis
      by (simp add: wrapped_function_def heap_counted_record)
  qed
qed

lemma heap_counted_exec: "heap_counted s \<Longrightarrow> heap_counted (exec x s)"
proof (cases x)
  case (OpHook i c ev t)
  assume "heap_counted s"
  with OpHook show ?thesis by (simp add: heap_counted_trace_function)
next
  case (OpWrapper c call t0 t1)
  assume "heap_counted s"
  with OpWrapper show ?thesis by (simp add: heap_counted_wrapped_function)
qed (simp_all add: heap_counted_def enable_frame disable_frame update_functions_frame
      trace_def rebind_def)

lemma heap_counted_foldl:
  "heap_counted s \<Longrightarrow> heap_counted (foldl (\<lambda>s' x. exec x s') s ops)"
  by (induction ops arbitrary: s) (simp_all add: heap_counted_exec)

lemma heap_counted_run: "heap_counted (run ops (init imp binds tr))"
  unfolding run_def
  by (rule heap_counted_foldl) (simp add: heap_counted_def init_def)

text \<open>
  C9: in every state the tracer can reach from \<open>FunctionTracer()\<close>, whatever is done
  to it, each entry read from the dictionary that \<open>get_results()\<close> or \<open>disable()\<close>
  returns has \<open>call_count\<close> at least one.
\<close>

theorem observed_entries_counted:
  assumes "s = run ops (init imp binds tr)"
    and "read_snapshot (get_results s) s f = Some st \<or> read_snapshot (fst (disable s)) (snd (disable s)) f = Some st"
  shows "1 \<le> call_count st"
proof -
  have hc: "heap_counted s" using assms(1) by (simp add: heap_counted_run)
  have "heap_counted (snd (disable s))"
    using hc by (simp add: heap_counted_def disable_frame)
  with hc assms(2) show ?thesis
    by (auto simp: read_snapshot_def heap_counted_def split: option.splits)
qed

theorem observed_entries_counted_witness:
  "read_snapshot (get_results (run one_session py_world)) (run one_session py_world) slow_function
     = Some \<lparr>call_count = 1, total_time = 2, min_time = Finite 2, max_time = 2\<rparr>
   \<and> (1::int) \<le> call_count \<lparr>call_count = 1, total_time = 2, min_time = Finite 2, max_time = 2\<rparr>"
proof -
  let ?s = "run one_session py_world"
  have a: "?s = run one_session
      (init (\<lambda>m. m = ''time'')
        [(''time'', ''sleep'') \<mapsto> Original time_sleep, (''time'', ''time'') \<mapsto> Original time_time]
        None)"
    by (simp add: py_world_def)
  have v: "read_snapshot (get_results ?s) ?s slow_function
     = Some \<lparr>call_count = 1, total_time = 2, min_time = Finite 2, max_time = 2\<rparr>"
    by (simp add: unfold_all)
  from observed_entries_counted [OF a, of slow_function
      "\<lparr>call_count = 1, total_time = 2, min_time = Finite 2, max_time = 2\<rparr>"] v
  show ?thesis by blast
qed


section \<open>Recursion through the trace hook\<close>


















section \<open>Restoring the bindings\<close>

lemma set_binding_overwrites:
  assumes "fmodule f = Some m" and "fname f = Some n" and "importable s m"
  shows "set_binding f v w (rebind (m, n) x s) = set_binding f v w s"
    and "bindings (set_binding f v w s) (m, n) = Some v"
  using assms by (simp_all add: set_binding_def rebind_def)

lemma set_binding_commutes:
  assumes "\<not> (fmodule f = Some m \<and> fname f = Some n \<and> importable s m)"
  shows "set_binding f v w (rebind (m, n) x s) = rebind (m, n) x (set_binding f v w s)"
proof (cases "fmodule f")
  case None
  then show ?thesis by (simp add: set_binding_def rebind_def)
next
  case (Some m')
  note fm = Some
  show ?thesis
  proof (cases "fname f")
    case None
    with fm show ?thesis by (simp add: set_binding_def rebind_def)
  next
    case (Some n')
    show ?thesis
    proof (cases "importable s m'")
      case False
      with fm Some show ?thesis by (simp add: set_binding_def rebind_def)
    next
      case True
      with assms fm Some have "(m', n') \<noteq> (m, n)" by auto
      then have "(bindings s)((m, n) \<mapsto> x, (m', n') \<mapsto> v)
                   = (bindings s)((m', n') \<mapsto> v, (m, n) \<mapsto> x)"
        by (rule fun_upd_twist [symmetric])
      with fm Some True show ?thesis by (simp add: set_binding_def rebind_def)
    qed
  qed
qed

lemma restore_loop_rebind:
  assumes "(f, orig) \<in> set recs" and "fmodule f = Some m" and "fname f = Some n"
    and "importable s m"
  shows "restore_loop recs (rebind (m, n) x s) = restore_loop recs s"
  using assms
proof (induction recs arbitrary: s)
  case Nil
  then show ?case by simp
next
  case (Cons p recs)
  obtain g o' where p: "p = (g, o')" by (cases p)
  show ?case
  proof (cases "fmodule g = Some m \<and> fname g = Some n")
    case True
    with Cons.prems(4) p show ?thesis
      by (simp add: set_binding_overwrites(1))
  next
    case False
    then have "f \<noteq> g" using Cons.prems(2,3) by auto
    with Cons.prems(1) p have mem: "(f, orig) \<in> set recs" by simp
    let ?s1 = "set_binding g (Original o') (CouldNotRestore (warn_name g)) s"
    have imp: "importable ?s1 m" using Cons.prems(4) by (simp add: set_binding_frame)
    have "set_binding g (Original o') (CouldNotRestore (warn_name g)) (rebind (m, n) x s)
            = rebind (m, n) x ?s1"
      using False by (intro set_binding_commutes) blast
    with Cons.IH [OF mem Cons.prems(2,3) imp] p show ?thesis by simp
  qed
qed

lemma restore_loop_keeps_or_restores:
  "bindings (restore_loop recs s) (m, n) = bindings s (m, n)
   \<or> (\<exists>g o'. (g, o') \<in> set recs \<and> fmodule g = Some m \<and> fname g = Some n
         \<and> bindings (restore_loop recs s) (m, n) = Some (Original o'))"
proof (induction recs arbitrary: s)
  case Nil
  then show ?case by simp
next
  case (Cons p recs)
  obtain g o' where p: "p = (g, o')" by (cases p)
  let ?s1 = "set_binding g (Original o') (CouldNotRestore (warn_name g)) s"
  have step: "bindings ?s1 (m, n) = bindings s (m, n)
     \<or> (fmodule g = Some m \<and> fname g = Some n \<and> bindings ?s1 (m, n) = Some (Original o'))"
    by (auto simp: set_binding_def split: option.splits)
  from Cons.IH [of ?s1] step p show ?case
    by (simp del: fun_upd_apply) metis
qed

lemma restore_loop_restores:
  assumes "(f, orig) \<in> set recs" and "fmodule f = Some m" and "fname f = Some n"
    and "importable s m"
  shows "\<exists>g o'. (g, o') \<in> set recs \<and> fmodule g = Some m \<and> fname g = Some n
         \<and> bindings (restore_loop recs s) (m, n) = Some (Original o')"
  using assms
proof (induction recs arbitrary: s)
  case Nil
  then show ?case by simp
next
  case (Cons p recs)
  obtain g o' where p: "p = (g, o')" by (cases p)
  let ?s1 = "set_binding g (Original o') (CouldNotRestore (warn_name g)) s"
  have imp: "importable ?s1 m" using Cons.prems(4) by (simp add: set_binding_frame)
  show ?case
  proof (cases "(f, orig) \<in> set recs")
    case True
    from Cons.IH [OF True Cons.prems(2,3) imp] p show ?thesis by auto
  next
    case False
    with Cons.prems(1) p have eq: "g = f" "o' = orig" by auto
    have b1: "bindings ?s1 (m, n) = Some (Original orig)"
      using eq Cons.prems(2,3,4) by (simp add: set_binding_overwrites(2))
    from restore_loop_keeps_or_restores [of recs ?s1 m n] b1 eq p Cons.prems(2,3)
    show ?thesis by auto
  qed
qed

lemma rebind_fields:
  "original_builtins (rebind loc x s) = original_builtins s"
  "importable (rebind loc x s) = importable s"
  by (simp_all add: rebind_def)

lemma set_binding_printed:
  "printed (set_binding f v w s) = printed s @ (if import_fails (importable s) f then [w] else [])"
  by (simp add: set_binding_def import_fails_def split: option.splits)

lemma restore_loop_printed:
  "printed (restore_loop recs s)
     = printed s @ map (\<lambda>p. CouldNotRestore (warn_name (fst p)))
                     (filter (\<lambda>p. import_fails (importable s) (fst p)) recs)"
proof (induction recs arbitrary: s)
  case Nil
  then show ?case by simp
next
  case (Cons p recs)
  obtain g o' where p: "p = (g, o')" by (cases p)
  let ?s1 = "set_binding g (Original o') (CouldNotRestore (warn_name g)) s"
  have imp: "importable ?s1 = importable s" by (simp add: set_binding_frame)
  from Cons.IH [of ?s1] p show ?case
    by (simp add: imp set_binding_printed)
qed

lemma restore_builtin_functions_printed:
  "printed (restore_builtin_functions s)
     = printed s @ map (\<lambda>p. CouldNotRestore (warn_name (fst p)))
                     (filter (\<lambda>p. import_fails (importable s) (fst p)) (original_builtins s))"
  by (simp add: restore_builtin_functions_def restore_loop_printed)

text \<open>
  C5, as stated: a binding that a third party has replaced is left alone on restore and a
  warning is raised. The code does not look at the binding: after \<open>enable([time.sleep])\<close>
  and a foreign assignment to \<open>time.sleep\<close>, \<open>disable()\<close> puts the saved original back
  over the foreign value and prints nothing.
\<close>

theorem restore_clobbers_foreign:
  "bindings (rebind sleep_loc (Foreign 7) sleep_traced) sleep_loc = Some (Foreign 7)
   \<and> bindings (snd (disable (rebind sleep_loc (Foreign 7) sleep_traced))) sleep_loc
       = Some (Original time_sleep)
   \<and> printed (snd (disable (rebind sleep_loc (Foreign 7) sleep_traced))) = []"
  by (simp add: unfold_all)

text \<open>
  C5, amended: on restore, every substitution record whose function has a module and a
  name and whose module can be imported has its binding location overwritten with a saved
  original callable, whatever the location holds at that moment. A foreign rebinding of
  the location beforehand changes nothing in the outcome: the same state results as
  without it. The warnings a restore prints are exactly one \<open>CouldNotRestore\<close> for
  each record whose import fails, in the order of the records, and nothing else; the
  record of the rebound location is not among them.
\<close>

theorem restore_overwrites:
  assumes "(f, orig) \<in> set (original_builtins s)"
    and "fmodule f = Some m" and "fname f = Some n" and "importable s m"
  shows "restore_builtin_functions (rebind (m, n) x s) = restore_builtin_functions s
       \<and> (\<exists>g o'. (g, o') \<in> set (original_builtins s) \<and> fmodule g = Some m \<and> fname g = Some n
            \<and> bindings (restore_builtin_functions (rebind (m, n) x s)) (m, n) = Some (Original o'))
       \<and> printed (restore_builtin_functions (rebind (m, n) x s)) = printed (restore_builtin_functions s)
       \<and> printed (restore_builtin_functions (rebind (m, n) x s))
           = printed s @ map (\<lambda>p. CouldNotRestore (warn_name (fst p)))
               (filter (\<lambda>p. import_fails (importable s) (fst p)) (original_builtins s))
       \<and> \<not> import_fails (importable s) f"
proof -
  have eq: "restore_builtin_functions (rebind (m, n) x s) = restore_builtin_functions s"
    using restore_loop_rebind [OF assms, of x]
    by (simp add: restore_builtin_functions_def rebind_fields)
  have "\<exists>g o'. (g, o') \<in> set (original_builtins s) \<and> fmodule g = Some m \<and> fname g = Some n
            \<and> bindings (restore_builtin_functions s) (m, n) = Some (Original o')"
    using restore_loop_restores [OF assms] by (simp add: restore_builtin_functions_def)
  moreover have "\<not> import_fails (importable s) f"
    using assms(2,3,4) by (simp add: import_fails_def)
  ultimately show ?thesis
    using eq by (simp add: restore_builtin_functions_printed)
qed

theorem restore_overwrites_witness:
  "(time_sleep, time_sleep) \<in> set (original_builtins sleep_traced)
   \<and> fmodule time_sleep = Some ''time'' \<and> fname time_sleep = Some ''sleep''
   \<and> importable sleep_traced ''time''
   \<and> restore_builtin_functions (rebind (''time'', ''sleep'') (Foreign 7) sleep_traced)
       = restore_builtin_functions sleep_traced
   \<and> bindings (restore_builtin_functions (rebind (''time'', ''sleep'') (Foreign 7) sleep_traced))
        (''time'', ''sleep'') = Some (Original time_sleep)
   \<and> printed (restore_builtin_functions (rebind (''time'', ''sleep'') (Foreign 7) sleep_traced)) = []"
proof -
  have h1: "(time_sleep, time_sleep) \<in> set (original_builtins sleep_traced)"
    by (simp add: unfold_all)
  have h2: "fmodule time_sleep = Some ''time''" by (simp add: time_sleep_def)
  have h3: "fname time_sleep = Some ''sleep''" by (simp add: time_sleep_def)
  have h4: "importable sleep_traced ''time''" by (simp add: unfold_all)
  have recs: "original_builtins sleep_traced = [(time_sleep, time_sleep)]"
    by (simp add: unfold_all)
  have pr: "printed sleep_traced = []" by (simp add: unfold_all)
  from restore_overwrites [OF h1 h2 h3 h4, of "Foreign 7"] recs pr h1 h2 h3 h4
  show ?thesis by auto
qed

section \<open>The wrapper closures\<close>

text \<open>
  C2 at two opaque targets in one pass. All closures of a pass share the loop variable,
  which ends as the last function iterated. After \<open>enable([time.sleep, time.time])\<close>
  the closure installed as \<open>time.time\<close> calls \<open>time.sleep\<close>, returns its result and
  records under \<open>time.sleep\<close>; \<open>time.time\<close> gets no entry. With the targets in the
  other order it is the closure installed as \<open>time.sleep\<close> that calls \<open>time.time\<close>.
\<close>

theorem two_wrappers_share_target:
  "bindings (snd (enable (Some [time_sleep, time_time]) py_world)) (''time'', ''time'')
     = Some (Wrapper 0)
   \<and> fst (wrapped_function 0 returning 0 5 (snd (enable (Some [time_sleep, time_time]) py_world)))
     = returning time_sleep
   \<and> returning time_sleep \<noteq> returning time_time
   \<and> stats (snd (wrapped_function 0 returning 0 5
         (snd (enable (Some [time_sleep, time_time]) py_world)))) time_time = None
   \<and> count_of time_sleep (snd (wrapped_function 0 returning 0 5
         (snd (enable (Some [time_sleep, time_time]) py_world)))) = 1
   \<and> bindings (snd (enable (Some [time_time, time_sleep]) py_world)) (''time'', ''sleep'')
     = Some (Wrapper 0)
   \<and> fst (wrapped_function 0 returning 0 5 (snd (enable (Some [time_time, time_sleep]) py_world)))
     = returning time_time
   \<and> stats (snd (wrapped_function 0 returning 0 5
         (snd (enable (Some [time_time, time_sleep]) py_world)))) time_sleep = None"
  by (simp add: unfold_all count_of_def)

text \<open>
  C3 at a raising original. After \<open>enable([time.sleep])\<close> a call through the wrapper
  whose original raises gives the exception back unchanged and leaves the state as it
  was: nothing is recorded, \<open>time.sleep\<close> has no entry. The same call with an original
  that returns is recorded, and so is a traced Python function left by an exception: the
  trace hook records on the return event that ends the frame.
\<close>

theorem raising_call_not_recorded:
  "wrapped_function 0 raising 0 5 sleep_traced = (Inl (Raised 2), sleep_traced)
   \<and> stats (snd (wrapped_function 0 raising 0 5 sleep_traced)) time_sleep = None
   \<and> count_of time_sleep (snd (wrapped_function 0 raising 0 5 sleep_traced)) = 0
   \<and> count_of time_sleep (snd (wrapped_function 0 returning 0 5 sleep_traced)) = 1
   \<and> count_of slow_function
        (run [OpEnable (Some [slow_function]), OpHook 7 101 EvCall 10,
              OpHook 7 101 EvException 11, OpHook 7 101 EvReturn 12] py_world) = 1"
  by (simp add: unfold_all count_of_def)

section \<open>Snapshots\<close>

text \<open>
  C4 at one more traced call. The dictionary returned by \<open>get_results()\<close> after the first
  call of \<open>slow_function\<close> shows \<open>call_count = 1\<close>; read again after a second traced
  call, the same dictionary shows \<open>call_count = 2\<close> and the new total, minimum and
  maximum. The dictionary returned by \<open>disable()\<close> changes likewise once tracing is
  enabled again.
\<close>

theorem snapshot_changes:
  "read_snapshot (get_results (run first_call py_world)) (run first_call py_world) slow_function
     = Some \<lparr>call_count = 1, total_time = 2, min_time = Finite 2, max_time = 2\<rparr>
   \<and> read_snapshot (get_results (run first_call py_world))
        (run second_call (run first_call py_world)) slow_function
     = Some \<lparr>call_count = 2, total_time = 7, min_time = Finite 2, max_time = 5\<rparr>
   \<and> read_snapshot (fst (disable (run first_call py_world)))
        (snd (disable (run first_call py_world))) slow_function
     = Some \<lparr>call_count = 1, total_time = 2, min_time = Finite 2, max_time = 2\<rparr>
   \<and> read_snapshot (fst (disable (run first_call py_world)))
        (run (OpEnable (Some [slow_function]) # second_call)
          (snd (disable (run first_call py_world)))) slow_function
     = Some \<lparr>call_count = 2, total_time = 7, min_time = Finite 2, max_time = 5\<rparr>"
  by (simp add: unfold_all)

end
